theory Spec2Isabelle
  imports Complex_Main "HOL-Library.AList"
begin

section \<open>Values, exceptions and containers of the hub\<close>

text \<open>
  The hub (\<^verbatim>\<open>src/main.py\<close>) keeps three module-level containers: the sets
  \<^verbatim>\<open>publish_clients\<close> and \<^verbatim>\<open>dashboard_clients\<close> of WebSocket objects and the
  dict \<^verbatim>\<open>junctions\<close> from a junction id to the latest record. Everything that
  travels through it is a value parsed by \<^verbatim>\<open>json.loads\<close> or handed to
  \<^verbatim>\<open>json.dumps\<close>.

  A parsed JSON value: \<^verbatim>\<open>None\<close>, \<^verbatim>\<open>bool\<close>, an unbounded \<^verbatim>\<open>int\<close>, a
  \<^verbatim>\<open>float\<close> (a number of JSON is finite; it is given by its exact rational
  value), \<^verbatim>\<open>str\<close> (its characters as bytes), \<^verbatim>\<open>list\<close> and \<^verbatim>\<open>dict\<close> with
  string keys. A dict is an association list in insertion order, read by its first
  entry for a key. The objects of the program are never changed through a second
  reference: every message is parsed afresh and stored under one key, and nothing
  writes to a payload or a record after it was handed on. So values stand for
  objects.
\<close>

datatype json =
    JNull
  | JBool bool
  | JInt int
  | JFloat rat
  | JStr string
  | JArr "json list"
  | JObj "(string \<times> json) list"

type_synonym pydict = "(string \<times> json) list"

text \<open>The exceptions that the handlers can meet. All of them derive from \<^verbatim>\<open>Exception\<close>.\<close>

datatype exn =
    KeyError
  | TypeError
  | ValueError
  | AttributeError
  | JSONDecodeError
  | WebSocketDisconnect
  | RuntimeError

text \<open>A WebSocket object is known by its identity.\<close>

type_synonym ws = nat

subsection \<open>Python dict and set operations\<close>

text \<open>\<^verbatim>\<open>d.get(k)\<close>, \<^verbatim>\<open>d.get(k, default)\<close>, \<^verbatim>\<open>d[k]\<close> and \<^verbatim>\<open>k in d\<close>;
  \<^verbatim>\<open>d[k] = v\<close> is \<^const>\<open>AList.update\<close>: an existing key keeps its position,
  a new key goes to the end.\<close>

definition dict_get :: "pydict \<Rightarrow> string \<Rightarrow> json" where
  "dict_get d k = (case map_of d k of None \<Rightarrow> JNull | Some v \<Rightarrow> v)"

definition dict_get_default :: "pydict \<Rightarrow> string \<Rightarrow> json \<Rightarrow> json" where
  "dict_get_default d k dflt = (case map_of d k of None \<Rightarrow> dflt | Some v \<Rightarrow> v)"

definition dict_item :: "('k \<times> 'v) list \<Rightarrow> 'k \<Rightarrow> exn + 'v" where
  "dict_item d k = (case map_of d k of None \<Rightarrow> Inl KeyError | Some v \<Rightarrow> Inr v)"

definition dict_contains :: "('k \<times> 'v) list \<Rightarrow> 'k \<Rightarrow> bool" where
  "dict_contains d k = (map_of d k \<noteq> None)"

text \<open>
  The keys of \<^verbatim>\<open>junctions\<close> are whatever \<^verbatim>\<open>msg["junction_id"]\<close> holds. Python
  hashes \<^verbatim>\<open>None\<close>, \<^verbatim>\<open>bool\<close>, numbers and strings, and raises \<^verbatim>\<open>TypeError\<close> on a
  \<^verbatim>\<open>list\<close> or a \<^verbatim>\<open>dict\<close>. Keys are compared with \<^verbatim>\<open>==\<close>, under which
  \<^verbatim>\<open>True\<close>, \<^verbatim>\<open>1\<close> and \<^verbatim>\<open>1.0\<close> are one key; \<open>key\<close> is the key up to that
  equality. The keys themselves are never written out by the hub.
\<close>

datatype key = KNone | KNum rat | KStr string

fun hashable :: "json \<Rightarrow> exn + key" where
  "hashable JNull = Inr KNone"
| "hashable (JBool b) = Inr (KNum (if b then 1 else 0))"
| "hashable (JInt i) = Inr (KNum (of_int i))"
| "hashable (JFloat q) = Inr (KNum q)"
| "hashable (JStr s) = Inr (KStr s)"
| "hashable (JArr xs) = Inl TypeError"
| "hashable (JObj d) = Inl TypeError"

text \<open>\<^verbatim>\<open>s.add(x)\<close> and \<^verbatim>\<open>s.remove(x)\<close> of a Python set; \<^verbatim>\<open>remove\<close> raises
  \<^verbatim>\<open>KeyError\<close> when the element is not a member. A set is the list of its members
  in the order in which a \<^verbatim>\<open>for\<close> loop visits them.\<close>

definition set_add :: "'a \<Rightarrow> 'a list \<Rightarrow> 'a list" where
  "set_add x xs = (if x \<in> set xs then xs else xs @ [x])"

definition set_remove :: "'a \<Rightarrow> 'a list \<Rightarrow> exn + 'a list" where
  "set_remove x xs = (if x \<in> set xs then Inr (removeAll x xs) else Inl KeyError)"

subsection \<open>The state\<close>

text \<open>
  The three containers of the module, and the two things of the environment that
  the handlers touch: \<open>link c\<close> tells how \<^verbatim>\<open>send_text\<close> on socket \<open>c\<close> ends
  (\<open>None\<close>: the text is delivered; \<open>Some e\<close>: it raises \<open>e\<close>), and \<open>wire\<close>
  records every call of \<^verbatim>\<open>send_text\<close> in order: the socket, the value whose
  \<^verbatim>\<open>json.dumps\<close> was passed, and how the call ended.

  The handlers are coroutines. In the handlers below, what a handler does between
  two of its \<^verbatim>\<open>receive_text\<close> calls is taken as one step, with nothing else
  happening while its broadcast is under way. What a broadcast does when the
  registry changes during its awaits is \<open>broadcast_async\<close>, further down.
\<close>

record world =
  publish_clients :: "ws list"
  dashboard_clients :: "ws list"
  junctions :: "(key \<times> pydict) list"
  link :: "ws \<Rightarrow> exn option"
  wire :: "(ws \<times> json \<times> exn option) list"

definition send_text :: "ws \<Rightarrow> json \<Rightarrow> world \<Rightarrow> (exn + unit) \<times> world" where
  "send_text c m w =
     ((case link w c of None \<Rightarrow> Inr () | Some e \<Rightarrow> Inl e),
      w\<lparr>wire := wire w @ [(c, m, link w c)]\<rparr>)"

section \<open>broadcast\<close>

text \<open>
  \<^verbatim>\<open>
  async def broadcast(message: str):
      dead_clients = []
      for client in dashboard_clients:
          try:
              await client.send_text(message)
          except Exception:
              dead_clients.append(client)
      for client in dead_clients:
          dashboard_clients.remove(client)
  \<close>
  \<open>sweep\<close> is the first loop, over the clients still to visit, with the list of dead
  clients so far; \<open>unregister\<close> is the second loop, which a \<^verbatim>\<open>KeyError\<close> of
  \<^verbatim>\<open>remove\<close> would leave. \<open>broadcast\<close> is the call during whose awaits the
  registry is left alone.
\<close>

fun sweep :: "json \<Rightarrow> ws list \<Rightarrow> ws list \<Rightarrow> world \<Rightarrow> ws list \<times> world" where
  "sweep m [] dead w = (dead, w)"
| "sweep m (c # cs) dead w =
     (case send_text c m w of
        (Inr _, w') \<Rightarrow> sweep m cs dead w'
      | (Inl e, w') \<Rightarrow> sweep m cs (dead @ [c]) w')"

fun unregister :: "ws list \<Rightarrow> world \<Rightarrow> (exn + unit) \<times> world" where
  "unregister [] w = (Inr (), w)"
| "unregister (c # cs) w =
     (case set_remove c (dashboard_clients w) of
        Inl e \<Rightarrow> (Inl e, w)
      | Inr cs' \<Rightarrow> unregister cs (w\<lparr>dashboard_clients := cs'\<rparr>))"

definition broadcast :: "json \<Rightarrow> world \<Rightarrow> (exn + unit) \<times> world" where
  "broadcast m w =
     (case sweep m (dashboard_clients w) [] w of (dead, w1) \<Rightarrow> unregister dead w1)"

text \<open>What the first loop does, said in one piece: the clients whose send raises, and
  the calls of \<^verbatim>\<open>send_text\<close> that a pass over \<open>cs\<close> makes.\<close>

definition failing :: "world \<Rightarrow> ws \<Rightarrow> bool" where
  "failing w c = (link w c \<noteq> None)"

definition attempts :: "json \<Rightarrow> world \<Rightarrow> ws list \<Rightarrow> (ws \<times> json \<times> exn option) list" where
  "attempts m w cs = map (\<lambda>c. (c, m, link w c)) cs"

section \<open>The producer endpoint\<close>

text \<open>
  \<^verbatim>\<open>
  async def ws_publish(ws: WebSocket):
      await ws.accept()
      publish_clients.add(ws)
      try:
          while True:
              data = await ws.receive_text()
              msg = json.loads(data)
              if msg.get("type") == "junction_update":
                  jid = msg["junction_id"]
                  junctions[jid] = msg  # update state
                  await broadcast(json.dumps(msg))
      except WebSocketDisconnect:
          publish_clients.remove(ws)
  \<close>
  The model begins when \<^verbatim>\<open>accept\<close> has returned, here and for the dashboards.
  What the connection brings in is a list of frames: a text that \<^verbatim>\<open>json.loads\<close>
  parses to a value, a text that it rejects, or the end of the connection, at
  which \<^verbatim>\<open>receive_text\<close> raises \<^verbatim>\<open>WebSocketDisconnect\<close>. A handler that has
  consumed all frames is waiting in \<^verbatim>\<open>receive_text\<close>; otherwise it has returned
  from its \<^verbatim>\<open>except\<close> clause or was ended by an exception that nothing catches.
\<close>

datatype frame = Text json | Undecodable | Closed

datatype status = Receiving | Disconnected | Raised exn

text \<open>The body of the loop after \<^verbatim>\<open>json.loads\<close>. \<^verbatim>\<open>msg.get\<close> exists only on a
  dict: any other parsed value raises \<^verbatim>\<open>AttributeError\<close>.\<close>

definition ws_publish_body :: "json \<Rightarrow> world \<Rightarrow> (exn + unit) \<times> world" where
  "ws_publish_body msg w =
     (case msg of
        JObj d \<Rightarrow>
          if dict_get d ''type'' = JStr ''junction_update'' then
            (case dict_item d ''junction_id'' of
               Inl e \<Rightarrow> (Inl e, w)
             | Inr jid \<Rightarrow>
                 (case hashable jid of
                    Inl e \<Rightarrow> (Inl e, w)
                  | Inr k \<Rightarrow> broadcast msg (w\<lparr>junctions := AList.update k d (junctions w)\<rparr>)))
          else (Inr (), w)
      | _ \<Rightarrow> (Inl AttributeError, w))"

text \<open>The \<^verbatim>\<open>except WebSocketDisconnect\<close> clause; any other exception leaves the
  handler.\<close>

definition ws_publish_except :: "ws \<Rightarrow> exn \<Rightarrow> world \<Rightarrow> status \<times> world" where
  "ws_publish_except c e w =
     (if e = WebSocketDisconnect then
        (case set_remove c (publish_clients w) of
           Inl e' \<Rightarrow> (Raised e', w)
         | Inr cs \<Rightarrow> (Disconnected, w\<lparr>publish_clients := cs\<rparr>))
      else (Raised e, w))"

fun ws_publish_loop :: "ws \<Rightarrow> frame list \<Rightarrow> world \<Rightarrow> status \<times> world" where
  "ws_publish_loop c [] w = (Receiving, w)"
| "ws_publish_loop c (Closed # fs) w = ws_publish_except c WebSocketDisconnect w"
| "ws_publish_loop c (Undecodable # fs) w = ws_publish_except c JSONDecodeError w"
| "ws_publish_loop c (Text msg # fs) w =
     (case ws_publish_body msg w of
        (Inl e, w') \<Rightarrow> ws_publish_except c e w'
      | (Inr _, w') \<Rightarrow> ws_publish_loop c fs w')"

definition ws_publish :: "ws \<Rightarrow> frame list \<Rightarrow> world \<Rightarrow> status \<times> world" where
  "ws_publish c fs w = ws_publish_loop c fs (w\<lparr>publish_clients := set_add c (publish_clients w)\<rparr>)"

section \<open>The dashboard endpoint\<close>

text \<open>
  \<^verbatim>\<open>
  async def ws_dashboard(ws: WebSocket):
      await ws.accept()
      dashboard_clients.add(ws)
      try:
          snapshot = {"type": "snapshot", "junctions": list(junctions.values())}
          await ws.send_text(json.dumps(snapshot))
          while True:
              await ws.receive_text()  # keep alive, ignore any input
      except WebSocketDisconnect:
          dashboard_clients.remove(ws)
  \<close>
\<close>

definition snapshot :: "world \<Rightarrow> json" where
  "snapshot w =
     JObj [(''type'', JStr ''snapshot''),
           (''junctions'', JArr (map (\<lambda>kv. JObj (snd kv)) (junctions w)))]"

definition ws_dashboard_except :: "ws \<Rightarrow> exn \<Rightarrow> world \<Rightarrow> status \<times> world" where
  "ws_dashboard_except c e w =
     (if e = WebSocketDisconnect then
        (case set_remove c (dashboard_clients w) of
           Inl e' \<Rightarrow> (Raised e', w)
         | Inr cs \<Rightarrow> (Disconnected, w\<lparr>dashboard_clients := cs\<rparr>))
      else (Raised e, w))"

fun ws_dashboard_loop :: "ws \<Rightarrow> frame list \<Rightarrow> world \<Rightarrow> status \<times> world" where
  "ws_dashboard_loop c [] w = (Receiving, w)"
| "ws_dashboard_loop c (Closed # fs) w = ws_dashboard_except c WebSocketDisconnect w"
| "ws_dashboard_loop c (f # fs) w = ws_dashboard_loop c fs w"

text \<open>The \<^verbatim>\<open>try\<close> block, entered with the socket already in the set, and the
  whole handler.\<close>

definition ws_dashboard_try :: "ws \<Rightarrow> frame list \<Rightarrow> world \<Rightarrow> status \<times> world" where
  "ws_dashboard_try c fs w =
     (case send_text c (snapshot w) w of
        (Inl e, w2) \<Rightarrow> ws_dashboard_except c e w2
      | (Inr _, w2) \<Rightarrow> ws_dashboard_loop c fs w2)"

definition ws_dashboard :: "ws \<Rightarrow> frame list \<Rightarrow> world \<Rightarrow> status \<times> world" where
  "ws_dashboard c fs w =
     ws_dashboard_try c fs (w\<lparr>dashboard_clients := set_add c (dashboard_clients w)\<rparr>)"

section \<open>broadcast while other handlers run\<close>






section \<open>The override endpoint\<close>

text \<open>
  \<^verbatim>\<open>
  async def override_junction(jid: str, payload: dict = Body(...)):
      lane = payload.get("lane")
      duration = int(payload.get("duration", 20))
      operator = payload.get("operator", "manual")
      reason = payload.get("reason", "Manual override")
      if jid not in junctions:
          junctions[jid] = {"junction_id": jid}
      junctions[jid]["current_green"] = lane
      junctions[jid]["phase_remaining"] = duration
      junctions[jid]["override"] = {"operator": operator, "reason": reason,
          "time": datetime.datetime.now(datetime.timezone.utc).isoformat()}
      event = {"type": "override", "junction_id": jid, "payload": payload,
          "ts": datetime.datetime.now(datetime.timezone.utc).isoformat()}
      await broadcast(json.dumps(event))
      return {"status": "ok", "event": event, "applied_state": junctions[jid]}
  \<close>
  The framework hands over \<open>jid\<close>, a string of the path, and \<open>payload\<close>, a dict.
  The two readings of the clock come in as \<open>t1\<close> and \<open>t2\<close>, the texts that
  \<^verbatim>\<open>isoformat()\<close> gives for them.

  \<^verbatim>\<open>int(x)\<close> of Python: a bool counts as 0 or 1, a float is cut towards zero,
  \<^verbatim>\<open>None\<close>, a list and a dict raise \<^verbatim>\<open>TypeError\<close>. How the built-in reads a
  string is not part of this program: \<open>int_of_str\<close> stands for it, with \<open>None\<close>
  where it raises \<^verbatim>\<open>ValueError\<close>.
\<close>

fun py_int :: "(string \<Rightarrow> int option) \<Rightarrow> json \<Rightarrow> exn + int" where
  "py_int int_of_str JNull = Inl TypeError"
| "py_int int_of_str (JBool b) = Inr (if b then 1 else 0)"
| "py_int int_of_str (JInt i) = Inr i"
| "py_int int_of_str (JFloat q) = Inr (if 0 \<le> q then \<lfloor>q\<rfloor> else \<lceil>q\<rceil>)"
| "py_int int_of_str (JStr s) = (case int_of_str s of None \<Rightarrow> Inl ValueError | Some i \<Rightarrow> Inr i)"
| "py_int int_of_str (JArr xs) = Inl TypeError"
| "py_int int_of_str (JObj d) = Inl TypeError"

text \<open>\<^verbatim>\<open>junctions[jid][field] = value\<close>: the record is looked up (a \<^verbatim>\<open>KeyError\<close>
  when there is none) and changed in place.\<close>

definition set_field :: "string \<Rightarrow> string \<Rightarrow> json \<Rightarrow> world \<Rightarrow> (exn + unit) \<times> world" where
  "set_field jid f v w =
     (case dict_item (junctions w) (KStr jid) of
        Inl e \<Rightarrow> (Inl e, w)
      | Inr r \<Rightarrow>
          (Inr (), w\<lparr>junctions := AList.update (KStr jid) (AList.update f v r) (junctions w)\<rparr>))"

definition ensure_junction :: "string \<Rightarrow> world \<Rightarrow> world" where
  "ensure_junction jid w =
     (if \<not> dict_contains (junctions w) (KStr jid)
      then w\<lparr>junctions := AList.update (KStr jid) [(''junction_id'', JStr jid)] (junctions w)\<rparr>
      else w)"

definition override_event :: "string \<Rightarrow> pydict \<Rightarrow> string \<Rightarrow> json" where
  "override_event jid payload t2 =
     JObj [(''type'', JStr ''override''), (''junction_id'', JStr jid),
           (''payload'', JObj payload), (''ts'', JStr t2)]"

definition override_junction ::
  "(string \<Rightarrow> int option) \<Rightarrow> string \<Rightarrow> pydict \<Rightarrow> string \<Rightarrow> string \<Rightarrow> world \<Rightarrow> (exn + json) \<times> world"
where
  "override_junction int_of_str jid payload t1 t2 w =
     (let lane = dict_get payload ''lane'' in
      case py_int int_of_str (dict_get_default payload ''duration'' (JInt 20)) of
        Inl e \<Rightarrow> (Inl e, w)
      | Inr duration \<Rightarrow>
          let operator = dict_get_default payload ''operator'' (JStr ''manual'');
              reason = dict_get_default payload ''reason'' (JStr ''Manual override'');
              w0 = ensure_junction jid w
          in case set_field jid ''current_green'' lane w0 of
               (Inl e, w1) \<Rightarrow> (Inl e, w1)
             | (Inr _, w1) \<Rightarrow>
           (case set_field jid ''phase_remaining'' (JInt duration) w1 of
               (Inl e, w2) \<Rightarrow> (Inl e, w2)
             | (Inr _, w2) \<Rightarrow>
           (case set_field jid ''override''
                   (JObj [(''operator'', operator), (''reason'', reason), (''time'', JStr t1)]) w2 of
               (Inl e, w3) \<Rightarrow> (Inl e, w3)
             | (Inr _, w3) \<Rightarrow>
           (let event = override_event jid payload t2 in
            case broadcast event w3 of
               (Inl e, w4) \<Rightarrow> (Inl e, w4)
             | (Inr _, w4) \<Rightarrow>
           (case dict_item (junctions w4) (KStr jid) of
               Inl e \<Rightarrow> (Inl e, w4)
             | Inr r \<Rightarrow>
                 (Inr (JObj [(''status'', JStr ''ok''), (''event'', event),
                             (''applied_state'', JObj r)]), w4))))))"

subsection \<open>The clock\<close>










fun literal_then :: "string \<Rightarrow> string \<Rightarrow> string option" where
  "literal_then [] s = Some s"
| "literal_then (p # ps) [] = None"
| "literal_then (p # ps) (c # s) = (if p = c then literal_then ps s else None)"



section \<open>The hub as a whole\<close>

text \<open>
  The module starts with empty containers. What happens afterwards is a sequence
  of steps of the handlers, in any order: a producer or a dashboard connects, a
  frame arrives on a connection, an override is requested, or the transport of a
  socket changes its behaviour. The framework makes one WebSocket object per
  connection and calls the handler once with it, so a socket that has been sent
  to before does not open again: such an event is no run of the server and
  leaves the state as it is. Frames are not tied to the life of their handler:
  the runs of \<open>run\<close> include every run of the server.
\<close>

definition initial :: "(ws \<Rightarrow> exn option) \<Rightarrow> world" where
  "initial lk = \<lparr>publish_clients = [], dashboard_clients = [], junctions = [],
                 link = lk, wire = []\<rparr>"

datatype event =
    PubOpen ws
  | PubRecv ws frame
  | DashOpen ws
  | DashRecv ws frame
  | Override string pydict string string
  | Link ws "exn option"

definition sent_to :: "ws \<Rightarrow> world \<Rightarrow> json list" where
  "sent_to c w = map (\<lambda>x. fst (snd x)) (filter (\<lambda>x. fst x = c) (wire w))"

fun step :: "(string \<Rightarrow> int option) \<Rightarrow> event \<Rightarrow> world \<Rightarrow> world" where
  "step ios (PubOpen c) w = snd (ws_publish c [] w)"
| "step ios (PubRecv c f) w = snd (ws_publish_loop c [f] w)"
| "step ios (DashOpen c) w = (if sent_to c w = [] then snd (ws_dashboard c [] w) else w)"
| "step ios (DashRecv c f) w = snd (ws_dashboard_loop c [f] w)"
| "step ios (Override jid payload t1 t2) w = snd (override_junction ios jid payload t1 t2 w)"
| "step ios (Link c r) w = w\<lparr>link := (link w)(c := r)\<rparr>"

fun run :: "(string \<Rightarrow> int option) \<Rightarrow> event list \<Rightarrow> world \<Rightarrow> world" where
  "run ios [] w = w"
| "run ios (e # es) w = run ios es (step ios e w)"

section \<open>Notions used in the statements\<close>

text \<open>The key under which an update message is stored, the updates of a list that go
  to one key, and the test that every stored record names its own key.\<close>

definition id_key :: "pydict \<Rightarrow> exn + key" where
  "id_key d = (case dict_item d ''junction_id'' of Inl e \<Rightarrow> Inl e | Inr v \<Rightarrow> hashable v)"

definition is_update :: "pydict \<Rightarrow> bool" where
  "is_update d = (dict_get d ''type'' = JStr ''junction_update'' \<and> (case id_key d of Inl e \<Rightarrow> False | Inr k \<Rightarrow> True))"

definition updates_for :: "key \<Rightarrow> pydict list \<Rightarrow> pydict list" where
  "updates_for k ds = filter (\<lambda>d. id_key d = Inr k) ds"

definition ids_match :: "(key \<times> pydict) list \<Rightarrow> bool" where
  "ids_match js = list_all (\<lambda>kr. id_key (snd kr) = Inr (fst kr)) js"

text \<open>A message is a snapshot by its \<^verbatim>\<open>type\<close> field; a socket has been served in
  order when the first thing sent to it is a snapshot and nothing after it is.\<close>

definition is_snapshot :: "json \<Rightarrow> bool" where
  "is_snapshot m = (case m of JObj d \<Rightarrow> dict_get d ''type'' = JStr ''snapshot'' | _ \<Rightarrow> False)"

fun snapshot_first :: "json list \<Rightarrow> bool" where
  "snapshot_first [] = True"
| "snapshot_first (m # ms) = (is_snapshot m \<and> list_all (\<lambda>x. \<not> is_snapshot x) ms)"

definition served :: "world \<Rightarrow> bool" where
  "served w =
     (distinct (dashboard_clients w) \<and>
      (\<forall>c. snapshot_first (sent_to c w)) \<and>
      (\<forall>c. c \<in> set (dashboard_clients w) \<longrightarrow> sent_to c w \<noteq> []))"

text \<open>The three fields that an override writes, and the record it leaves.\<close>

definition override_fields :: "string set" where
  "override_fields = {''current_green'', ''phase_remaining'', ''override''}"

definition overridden :: "json \<Rightarrow> int \<Rightarrow> json \<Rightarrow> json \<Rightarrow> string \<Rightarrow> pydict \<Rightarrow> pydict" where
  "overridden lane duration operator reason t1 r =
     AList.update ''override''
       (JObj [(''operator'', operator), (''reason'', reason), (''time'', JStr t1)])
       (AList.update ''phase_remaining'' (JInt duration)
          (AList.update ''current_green'' lane r))"

text \<open>The record that an override works on: the stored one, or the placeholder made
  for an id that has none.\<close>

definition stored :: "string \<Rightarrow> world \<Rightarrow> pydict" where
  "stored jid w = (case map_of (junctions w) (KStr jid) of
                     None \<Rightarrow> [(''junction_id'', JStr jid)] | Some r \<Rightarrow> r)"

section \<open>States used as examples\<close>

text \<open>Three dashboards, the second of which has a transport that fails on every send.\<close>

definition demo :: world where
  "demo = \<lparr>publish_clients = [], dashboard_clients = [1, 2, 3], junctions = [],
           link = (\<lambda>c. if c = 2 then Some RuntimeError else None), wire = []\<rparr>"

text \<open>One healthy dashboard and an empty table.\<close>

definition one_dashboard :: world where
  "one_dashboard = \<lparr>publish_clients = [], dashboard_clients = [1], junctions = [],
                    link = (\<lambda>c. None), wire = []\<rparr>"

text \<open>Two stored records and one healthy dashboard.\<close>

definition two_junctions :: world where
  "two_junctions =
     \<lparr>publish_clients = [], dashboard_clients = [1],
      junctions =
        [(KStr ''A'', [(''type'', JStr ''junction_update''), (''junction_id'', JStr ''A''),
                       (''current_green'', JStr ''north''), (''name'', JStr ''1st'')]),
         (KStr ''B'', [(''type'', JStr ''junction_update''), (''junction_id'', JStr ''B''),
                       (''current_green'', JStr ''west'')])],
      link = (\<lambda>c. None), wire = []\<rparr>"



section \<open>Properties of broadcast\<close>

lemma sweep_eq:
  "sweep m cs dead w = (dead @ filter (failing w) cs, w\<lparr>wire := wire w @ attempts m w cs\<rparr>)"
proof (induction cs arbitrary: dead w)
  case Nil
  show ?case by (simp add: attempts_def)
next
  case (Cons c cs)
  show ?case
    by (cases "link w c") (simp_all add: send_text_def Cons.IH failing_def attempts_def)
qed

lemma filter_removeAll:
  "filter (\<lambda>x. x \<notin> set ys) (removeAll c xs) = filter (\<lambda>x. x \<notin> set (c # ys)) xs"
  by (induction xs) auto

lemma unregister_eq:
  "distinct dead \<Longrightarrow> set dead \<subseteq> set (dashboard_clients w) \<Longrightarrow>
   unregister dead w =
     (Inr (), w\<lparr>dashboard_clients := filter (\<lambda>c. c \<notin> set dead) (dashboard_clients w)\<rparr>)"
proof (induction dead arbitrary: w)
  case Nil
  show ?case by simp
next
  case (Cons c dead)
  let ?w = "w\<lparr>dashboard_clients := removeAll c (dashboard_clients w)\<rparr>"
  from Cons.prems have "distinct dead" "set dead \<subseteq> set (dashboard_clients ?w)"
    by auto
  from Cons.IH [OF this]
  have "unregister dead ?w =
        (Inr (), ?w\<lparr>dashboard_clients := filter (\<lambda>x. x \<notin> set dead) (dashboard_clients ?w)\<rparr>)" .
  then show ?case
    using Cons.prems by (simp add: set_remove_def filter_removeAll)
qed

lemma broadcast_eq:
  assumes "distinct (dashboard_clients w)"
  shows "broadcast m w =
     (Inr (), w\<lparr>wire := wire w @ attempts m w (dashboard_clients w),
               dashboard_clients := filter (\<lambda>c. \<not> failing w c) (dashboard_clients w)\<rparr>)"
proof -
  let ?cs = "dashboard_clients w"
  let ?w1 = "w\<lparr>wire := wire w @ attempts m w ?cs\<rparr>"
  have "unregister (filter (failing w) ?cs) ?w1 =
        (Inr (), ?w1\<lparr>dashboard_clients :=
           filter (\<lambda>c. c \<notin> set (filter (failing w) ?cs)) (dashboard_clients ?w1)\<rparr>)"
    using assms by (intro unregister_eq) auto
  moreover have "filter (\<lambda>c. c \<notin> set (filter (failing w) ?cs)) ?cs =
                 filter (\<lambda>c. \<not> failing w c) ?cs"
    by (rule filter_cong) auto
  ultimately show ?thesis
    by (simp add: broadcast_def sweep_eq)
qed







section \<open>Properties of the override endpoint\<close>

lemma unregister_frame:
  "junctions (snd (unregister dead w)) = junctions w \<and>
   publish_clients (snd (unregister dead w)) = publish_clients w \<and>
   link (snd (unregister dead w)) = link w \<and>
   wire (snd (unregister dead w)) = wire w"
  by (induction dead arbitrary: w) (simp_all split: sum.splits)

lemma broadcast_frame:
  "junctions (snd (broadcast m w)) = junctions w \<and>
   publish_clients (snd (broadcast m w)) = publish_clients w \<and>
   link (snd (broadcast m w)) = link w \<and>
   wire (snd (broadcast m w)) = wire w @ attempts m w (dashboard_clients w)"
  by (simp add: broadcast_def sweep_eq unregister_frame)

lemma failing_junctions [simp]: "failing (w\<lparr>junctions := js\<rparr>) = failing w"
  by (simp add: failing_def fun_eq_iff)

lemma attempts_junctions [simp]: "attempts m (w\<lparr>junctions := js\<rparr>) = attempts m w"
  by (simp add: attempts_def fun_eq_iff)


lemma override_junction_raises:
  "py_int ios (dict_get_default payload ''duration'' (JInt 20)) = Inl e \<Longrightarrow>
   override_junction ios jid payload t1 t2 w = (Inl e, w)"
  by (simp add: override_junction_def)

lemma override_junction_eq:
  assumes "distinct (dashboard_clients w)"
    and "py_int ios (dict_get_default payload ''duration'' (JInt 20)) = Inr d"
  shows "override_junction ios jid payload t1 t2 w =
     (Inr (JObj [(''status'', JStr ''ok''), (''event'', override_event jid payload t2),
                 (''applied_state'',
                    JObj (overridden (dict_get payload ''lane'') d
                           (dict_get_default payload ''operator'' (JStr ''manual''))
                           (dict_get_default payload ''reason'' (JStr ''Manual override''))
                           t1 (stored jid w)))]),
      w\<lparr>junctions := AList.update (KStr jid)
                        (overridden (dict_get payload ''lane'') d
                           (dict_get_default payload ''operator'' (JStr ''manual''))
                           (dict_get_default payload ''reason'' (JStr ''Manual override''))
                           t1 (stored jid w)) (junctions w),
        wire := wire w @ attempts (override_event jid payload t2) w (dashboard_clients w),
        dashboard_clients := filter (\<lambda>c. \<not> failing w c) (dashboard_clients w)\<rparr>)"
  using assms
  by (cases "map_of (junctions w) (KStr jid)")
     (simp_all add: override_junction_def ensure_junction_def set_field_def dict_item_def
        dict_contains_def update_conv' broadcast_eq overridden_def stored_def Let_def)

lemma override_junction_table:
  assumes "py_int ios (dict_get_default payload ''duration'' (JInt 20)) = Inr d"
  shows "junctions (snd (override_junction ios jid payload t1 t2 w)) =
     AList.update (KStr jid)
       (overridden (dict_get payload ''lane'') d
          (dict_get_default payload ''operator'' (JStr ''manual''))
          (dict_get_default payload ''reason'' (JStr ''Manual override''))
          t1 (stored jid w)) (junctions w)"
proof -
  have frame: "junctions (snd (broadcast m v)) = junctions v" for m v
    by (simp add: broadcast_frame)
  have split: "junctions (snd (case broadcast m v of (Inl e, w4) \<Rightarrow> (Inl e, w4)
                 | (Inr u, w4) \<Rightarrow> f w4)) = junctions v"
    if "\<And>w4. junctions w4 = junctions v \<Longrightarrow> junctions (snd (f w4)) = junctions v"
    for m v and f :: "world \<Rightarrow> (exn + json) \<times> world"
    using frame [of m v] that
    by (cases "broadcast m v") (auto split: sum.splits)
  show ?thesis
    using assms
    by (cases "map_of (junctions w) (KStr jid)")
       (simp_all add: override_junction_def ensure_junction_def set_field_def dict_item_def
          dict_contains_def update_conv' overridden_def stored_def Let_def split
          split: sum.splits)
qed




subsection \<open>The form of the timestamps\<close>









lemma literal_then_char: "literal_then [c] (c # r) = Some r"
  by simp





text \<open>
  Claim C6, as stated, fails: a negative \<^verbatim>\<open>duration\<close> is applied as it is.
\<close>

theorem override_negative_duration_counterexample:
  "fst (override_junction (\<lambda>s. None) ''J1''
          [(''lane'', JStr ''east''), (''duration'', JInt (- 5))] ''T1'' ''T2'' one_dashboard) =
     Inr (JObj [(''status'', JStr ''ok''),
                (''event'', JObj [(''type'', JStr ''override''), (''junction_id'', JStr ''J1''),
                   (''payload'', JObj [(''lane'', JStr ''east''), (''duration'', JInt (- 5))]),
                   (''ts'', JStr ''T2'')]),
                (''applied_state'',
                   JObj [(''junction_id'', JStr ''J1''), (''current_green'', JStr ''east''),
                         (''phase_remaining'', JInt (- 5)),
                         (''override'', JObj [(''operator'', JStr ''manual''),
                                              (''reason'', JStr ''Manual override''),
                                              (''time'', JStr ''T1'')])])])
   \<and> map_of (junctions (snd (override_junction (\<lambda>s. None) ''J1''
          [(''lane'', JStr ''east''), (''duration'', JInt (- 5))] ''T1'' ''T2'' one_dashboard)))
        (KStr ''J1'') =
     Some [(''junction_id'', JStr ''J1''), (''current_green'', JStr ''east''),
           (''phase_remaining'', JInt (- 5)),
           (''override'', JObj [(''operator'', JStr ''manual''),
                                (''reason'', JStr ''Manual override''),
                                (''time'', JStr ''T1'')])]"
  by (simp add: override_junction_def one_dashboard_def ensure_junction_def set_field_def
        dict_item_def dict_contains_def dict_get_def dict_get_default_def override_event_def
        broadcast_def send_text_def Let_def)

text \<open>
  Claim C6, amended. The applied duration is \<^verbatim>\<open>int()\<close> of the payload's
  \<^verbatim>\<open>duration\<close>, of either sign, and 20 when the field is absent: whenever \<^verbatim>\<open>int()\<close>
  accepts the value, the record's \<^verbatim>\<open>phase_remaining\<close> is that integer. The
  descriptor holds the payload's \<^verbatim>\<open>operator\<close> and \<^verbatim>\<open>reason\<close>, and \<^verbatim>\<open>"manual"\<close>
  and \<^verbatim>\<open>"Manual override"\<close> where they are absent. When \<^verbatim>\<open>int()\<close> raises on the
  \<^verbatim>\<open>duration\<close>, the exception leaves the entry point and nothing is applied.
\<close>

theorem override_duration_coerced:
  "(map_of payload ''duration'' = None \<longrightarrow>
      py_int ios (dict_get_default payload ''duration'' (JInt 20)) = Inr 20)
   \<and> (\<forall>v. map_of payload ''duration'' = Some v \<longrightarrow>
      py_int ios (dict_get_default payload ''duration'' (JInt 20)) = py_int ios v)
   \<and> (py_int ios (dict_get_default payload ''duration'' (JInt 20)) = Inr d \<longrightarrow>
        (\<exists>r. map_of (junctions (snd (override_junction ios jid payload t1 t2 w))) (KStr jid) = Some r
           \<and> map_of r ''phase_remaining'' = Some (JInt d)
           \<and> map_of r ''override'' =
               Some (JObj [(''operator'', (case map_of payload ''operator'' of
                                            None \<Rightarrow> JStr ''manual'' | Some v \<Rightarrow> v)),
                           (''reason'', (case map_of payload ''reason'' of
                                            None \<Rightarrow> JStr ''Manual override'' | Some v \<Rightarrow> v)),
                           (''time'', JStr t1)])))
   \<and> (py_int ios (dict_get_default payload ''duration'' (JInt 20)) = Inl e \<longrightarrow>
        override_junction ios jid payload t1 t2 w = (Inl e, w))"
  using override_junction_table [of ios payload d jid t1 t2 w]
    override_junction_raises [of ios payload e jid t1 t2 w]
  by (simp add: dict_get_default_def update_conv' overridden_def)

theorem override_duration_coerced_witness:
  "py_int (\<lambda>s. None) (dict_get_default [(''lane'', JStr ''east'')] ''duration'' (JInt 20)) = Inr 20
   \<and> py_int (\<lambda>s. None) (dict_get_default [(''duration'', JFloat (- 5 / 2))] ''duration'' (JInt 20)) =
       Inr (- 2)
   \<and> (\<exists>r. map_of (junctions (snd (override_junction (\<lambda>s. None) ''J1''
               [(''duration'', JFloat (- 5 / 2))] ''T1'' ''T2'' demo))) (KStr ''J1'') = Some r
         \<and> map_of r ''phase_remaining'' = Some (JInt (- 2))
         \<and> map_of r ''override'' =
             Some (JObj [(''operator'', JStr ''manual''), (''reason'', JStr ''Manual override''),
                         (''time'', JStr ''T1'')]))
   \<and> override_junction (\<lambda>s. None) ''J1'' [(''duration'', JNull)] ''T1'' ''T2'' demo =
       (Inl TypeError, demo)"
proof -
  have trunc: "\<lceil>- ((5::rat) / 2)\<rceil> = - 2"
    by (simp add: ceiling_eq_iff)
  show ?thesis
    using override_duration_coerced [of "[(''lane'', JStr ''east'')]" "\<lambda>s. None" 20 _ _ _ demo TypeError]
      override_duration_coerced [of "[(''duration'', JFloat (- 5 / 2))]" "\<lambda>s. None" "- 2" "''J1''" "''T1''" "''T2''" demo TypeError]
      override_duration_coerced [of "[(''duration'', JNull)]" "\<lambda>s. None" 0 "''J1''" "''T1''" "''T2''" demo TypeError]
    by (simp add: dict_get_default_def trunc)
qed

text \<open>
  Claim C7. An override for an id with a stored record leaves every field of that
  record other than \<^verbatim>\<open>current_green\<close>, \<^verbatim>\<open>phase_remaining\<close> and \<^verbatim>\<open>override\<close>
  as it was, and leaves the record of every other id as it was. For an id with no
  record, the record after the override is the placeholder that holds just the id,
  with the three fields set on it.
\<close>

theorem override_frame:
  "(\<forall>k. k \<noteq> KStr jid \<longrightarrow>
        map_of (junctions (snd (override_junction ios jid payload t1 t2 w))) k =
        map_of (junctions w) k)
   \<and> (\<forall>r. map_of (junctions w) (KStr jid) = Some r \<longrightarrow>
        (\<exists>r'. map_of (junctions (snd (override_junction ios jid payload t1 t2 w))) (KStr jid) =
                 Some r'
              \<and> (\<forall>f. f \<notin> override_fields \<longrightarrow> map_of r' f = map_of r f)))
   \<and> (map_of (junctions w) (KStr jid) = None \<longrightarrow>
        py_int ios (dict_get_default payload ''duration'' (JInt 20)) = Inr d \<longrightarrow>
        map_of (junctions (snd (override_junction ios jid payload t1 t2 w))) (KStr jid) =
          Some (overridden (dict_get payload ''lane'') d
                  (dict_get_default payload ''operator'' (JStr ''manual''))
                  (dict_get_default payload ''reason'' (JStr ''Manual override''))
                  t1 [(''junction_id'', JStr jid)]))"
proof (cases "py_int ios (dict_get_default payload ''duration'' (JInt 20))")
  case (Inl e)
  from override_junction_raises [OF this, of jid t1 t2 w] Inl show ?thesis
    by simp
next
  case (Inr n)
  from override_junction_table [OF this, of jid t1 t2 w] Inr show ?thesis
    by (auto simp add: update_conv' overridden_def stored_def override_fields_def)
qed

theorem override_frame_witness:
  "map_of (junctions (snd (override_junction (\<lambda>s. None) ''A''
              [(''lane'', JStr ''east'')] ''T1'' ''T2'' two_junctions))) (KStr ''B'') =
     Some [(''type'', JStr ''junction_update''), (''junction_id'', JStr ''B''),
           (''current_green'', JStr ''west'')]
   \<and> map_of (junctions two_junctions) (KStr ''A'') =
        Some [(''type'', JStr ''junction_update''), (''junction_id'', JStr ''A''),
              (''current_green'', JStr ''north''), (''name'', JStr ''1st'')]
   \<and> (\<exists>r'. map_of (junctions (snd (override_junction (\<lambda>s. None) ''A''
                  [(''lane'', JStr ''east'')] ''T1'' ''T2'' two_junctions))) (KStr ''A'') = Some r'
          \<and> map_of r' ''name'' = Some (JStr ''1st'')
          \<and> map_of r' ''junction_id'' = Some (JStr ''A'')
          \<and> map_of r' ''type'' = Some (JStr ''junction_update''))
   \<and> map_of (junctions two_junctions) (KStr ''C'') = None
   \<and> map_of (junctions (snd (override_junction (\<lambda>s. None) ''C''
                  [(''lane'', JStr ''east'')] ''T1'' ''T2'' two_junctions))) (KStr ''C'') =
        Some [(''junction_id'', JStr ''C''), (''current_green'', JStr ''east''),
              (''phase_remaining'', JInt 20),
              (''override'', JObj [(''operator'', JStr ''manual''),
                                   (''reason'', JStr ''Manual override''),
                                   (''time'', JStr ''T1'')])]"
proof -
  let ?a = "snd (override_junction (\<lambda>s. None) ''A''
              [(''lane'', JStr ''east'')] ''T1'' ''T2'' two_junctions)"
  let ?c = "snd (override_junction (\<lambda>s. None) ''C''
              [(''lane'', JStr ''east'')] ''T1'' ''T2'' two_junctions)"
  note a = override_frame [of "''A''" "\<lambda>s. None" "[(''lane'', JStr ''east'')]" "''T1''" "''T2''"
          two_junctions 20]
  note c = override_frame [of "''C''" "\<lambda>s. None" "[(''lane'', JStr ''east'')]" "''T1''" "''T2''"
          two_junctions 20]
  have stored: "map_of (junctions two_junctions) (KStr ''A'') =
        Some [(''type'', JStr ''junction_update''), (''junction_id'', JStr ''A''),
              (''current_green'', JStr ''north''), (''name'', JStr ''1st'')]"
    and absent: "map_of (junctions two_junctions) (KStr ''C'') = None"
    and other: "map_of (junctions two_junctions) (KStr ''B'') =
        Some [(''type'', JStr ''junction_update''), (''junction_id'', JStr ''B''),
              (''current_green'', JStr ''west'')]"
    by (simp_all add: two_junctions_def)
  from a have "map_of (junctions ?a) (KStr ''B'') = map_of (junctions two_junctions) (KStr ''B'')"
    by simp
  with other have b: "map_of (junctions ?a) (KStr ''B'') =
        Some [(''type'', JStr ''junction_update''), (''junction_id'', JStr ''B''),
              (''current_green'', JStr ''west'')]"
    by simp
  from a stored obtain r' where r': "map_of (junctions ?a) (KStr ''A'') = Some r'"
    and keep: "\<forall>f. f \<notin> override_fields \<longrightarrow>
                 map_of r' f = map_of [(''type'', JStr ''junction_update''),
                                       (''junction_id'', JStr ''A''),
                                       (''current_green'', JStr ''north''),
                                       (''name'', JStr ''1st'')] f"
    by blast
  from keep have "map_of r' ''name'' = Some (JStr ''1st'')"
    "map_of r' ''junction_id'' = Some (JStr ''A'')"
    "map_of r' ''type'' = Some (JStr ''junction_update'')"
    by (simp_all add: override_fields_def)
  with r' have kept: "\<exists>r'. map_of (junctions ?a) (KStr ''A'') = Some r'
          \<and> map_of r' ''name'' = Some (JStr ''1st'')
          \<and> map_of r' ''junction_id'' = Some (JStr ''A'')
          \<and> map_of r' ''type'' = Some (JStr ''junction_update'')"
    by blast
  from c absent have new: "map_of (junctions ?c) (KStr ''C'') =
        Some [(''junction_id'', JStr ''C''), (''current_green'', JStr ''east''),
              (''phase_remaining'', JInt 20),
              (''override'', JObj [(''operator'', JStr ''manual''),
                                   (''reason'', JStr ''Manual override''),
                                   (''time'', JStr ''T1'')])]"
    by (simp add: dict_get_default_def dict_get_def overridden_def)
  from b stored kept absent new show ?thesis
    by blast
qed

section \<open>Properties of the producer endpoint\<close>

lemma ws_publish_body_update:
  assumes "is_update d" and "distinct (dashboard_clients w)"
  shows "\<exists>k. id_key d = Inr k \<and>
     ws_publish_body (JObj d) w =
       (Inr (), w\<lparr>junctions := AList.update k d (junctions w),
                  wire := wire w @ attempts (JObj d) w (dashboard_clients w),
                  dashboard_clients := filter (\<lambda>c. \<not> failing w c) (dashboard_clients w)\<rparr>)"
proof -
  from assms(1) obtain k where k: "id_key d = Inr k"
    by (auto simp add: is_update_def split: sum.splits)
  then obtain v where v: "dict_item d ''junction_id'' = Inr v" "hashable v = Inr k"
    by (auto simp add: id_key_def split: sum.splits)
  from assms(1) have t: "dict_get d ''type'' = JStr ''junction_update''"
    by (simp add: is_update_def)
  have "distinct (dashboard_clients (w\<lparr>junctions := AList.update k d (junctions w)\<rparr>))"
    using assms(2) by simp
  from broadcast_eq [OF this, of "JObj d"] k v t show ?thesis
    by (simp add: ws_publish_body_def)
qed

lemma last_updates_for:
  "id_key d = Inr k0 \<Longrightarrow>
   (if updates_for k ds = [] then ((map_of js)(k0 \<mapsto> d)) k else Some (last (updates_for k ds))) =
   (if updates_for k (d # ds) = [] then map_of js k else Some (last (updates_for k (d # ds))))"
  by (simp add: updates_for_def)

text \<open>
  Claim C4. When a producer connection brings in a sequence of
  \<^verbatim>\<open>junction_update\<close> messages, each with a \<^verbatim>\<open>junction_id\<close> that can be a key,
  the handler processes all of them and waits for more; afterwards the table holds
  under every id the last message of the sequence for that id, whole and as it
  came, whatever was sent for other ids in between, and what it held before under
  an id that no message names; and it holds one record for a key, as before.
\<close>

theorem last_write_wins:
  assumes "list_all is_update ds" and "distinct (dashboard_clients w)"
  shows "fst (ws_publish_loop c (map (\<lambda>d. Text (JObj d)) ds) w) = Receiving
     \<and> (\<forall>k. map_of (junctions (snd (ws_publish_loop c (map (\<lambda>d. Text (JObj d)) ds) w))) k =
            (if updates_for k ds = [] then map_of (junctions w) k
             else Some (last (updates_for k ds))))
     \<and> (distinct (map fst (junctions w)) \<longrightarrow>
          distinct (map fst (junctions (snd (ws_publish_loop c (map (\<lambda>d. Text (JObj d)) ds) w)))))"
  using assms
proof (induction ds arbitrary: w)
  case Nil
  show ?case by (simp add: updates_for_def)
next
  case (Cons d ds)
  from Cons.prems have d: "is_update d" and ds: "list_all is_update ds"
    by simp_all
  from ws_publish_body_update [OF d Cons.prems(2)] obtain k0 where
    k0: "id_key d = Inr k0" and
    body: "ws_publish_body (JObj d) w =
       (Inr (), w\<lparr>junctions := AList.update k0 d (junctions w),
                  wire := wire w @ attempts (JObj d) w (dashboard_clients w),
                  dashboard_clients := filter (\<lambda>c. \<not> failing w c) (dashboard_clients w)\<rparr>)"
    by blast
  let ?w1 = "w\<lparr>junctions := AList.update k0 d (junctions w),
                  wire := wire w @ attempts (JObj d) w (dashboard_clients w),
                  dashboard_clients := filter (\<lambda>c. \<not> failing w c) (dashboard_clients w)\<rparr>"
  have "distinct (dashboard_clients ?w1)"
    using Cons.prems(2) by simp
  note IH = Cons.IH [OF ds this]
  have loop: "ws_publish_loop c (map (\<lambda>d. Text (JObj d)) (d # ds)) w =
              ws_publish_loop c (map (\<lambda>d. Text (JObj d)) ds) ?w1"
    by (simp add: body)
  have keys: "distinct (map fst (junctions w)) \<longrightarrow> distinct (map fst (junctions ?w1))"
    by (simp add: distinct_update)
  let ?w' = "snd (ws_publish_loop c (map (\<lambda>d. Text (JObj d)) ds) ?w1)"
  have table: "map_of (junctions ?w') k =
               (if updates_for k (d # ds) = [] then map_of (junctions w) k
                else Some (last (updates_for k (d # ds))))" for k
  proof -
    from IH have "map_of (junctions ?w') k =
               (if updates_for k ds = [] then map_of (junctions ?w1) k
                else Some (last (updates_for k ds)))"
      by blast
    also have "map_of (junctions ?w1) k = ((map_of (junctions w))(k0 \<mapsto> d)) k"
      by (simp add: update_conv')
    finally show ?thesis
      by (simp only: last_updates_for [OF k0])
  qed
  from IH keys table show ?case
    unfolding loop by blast
qed

theorem last_write_wins_witness:
  "list_all is_update
     [[(''type'', JStr ''junction_update''), (''junction_id'', JStr ''A''), (''n'', JInt 1)],
      [(''type'', JStr ''junction_update''), (''junction_id'', JStr ''B''), (''n'', JInt 2)],
      [(''type'', JStr ''junction_update''), (''junction_id'', JStr ''A''), (''m'', JInt 3)]]
   \<and> distinct (dashboard_clients demo)
   \<and> fst (ws_publish_loop 7 (map (\<lambda>d. Text (JObj d))
       [[(''type'', JStr ''junction_update''), (''junction_id'', JStr ''A''), (''n'', JInt 1)],
        [(''type'', JStr ''junction_update''), (''junction_id'', JStr ''B''), (''n'', JInt 2)],
        [(''type'', JStr ''junction_update''), (''junction_id'', JStr ''A''), (''m'', JInt 3)]])
       demo) = Receiving
   \<and> map_of (junctions (snd (ws_publish_loop 7 (map (\<lambda>d. Text (JObj d))
       [[(''type'', JStr ''junction_update''), (''junction_id'', JStr ''A''), (''n'', JInt 1)],
        [(''type'', JStr ''junction_update''), (''junction_id'', JStr ''B''), (''n'', JInt 2)],
        [(''type'', JStr ''junction_update''), (''junction_id'', JStr ''A''), (''m'', JInt 3)]])
       demo))) (KStr ''A'') =
      Some [(''type'', JStr ''junction_update''), (''junction_id'', JStr ''A''), (''m'', JInt 3)]
   \<and> map_of (junctions (snd (ws_publish_loop 7 (map (\<lambda>d. Text (JObj d))
       [[(''type'', JStr ''junction_update''), (''junction_id'', JStr ''A''), (''n'', JInt 1)],
        [(''type'', JStr ''junction_update''), (''junction_id'', JStr ''B''), (''n'', JInt 2)],
        [(''type'', JStr ''junction_update''), (''junction_id'', JStr ''A''), (''m'', JInt 3)]])
       demo))) (KStr ''C'') = None"
  using last_write_wins [of
       "[[(''type'', JStr ''junction_update''), (''junction_id'', JStr ''A''), (''n'', JInt 1)],
        [(''type'', JStr ''junction_update''), (''junction_id'', JStr ''B''), (''n'', JInt 2)],
        [(''type'', JStr ''junction_update''), (''junction_id'', JStr ''A''), (''m'', JInt 3)]]"
       demo 7]
  by (simp add: is_update_def id_key_def dict_item_def dict_get_def updates_for_def demo_def)

text \<open>
  Claim C3, as stated, fails: the update without \<^verbatim>\<open>junction_id\<close> ends the
  handler with a \<^verbatim>\<open>KeyError\<close>, and the valid update that follows on the same
  connection is not stored, although sent alone it is.
\<close>

theorem publish_missing_id_counterexample:
  "fst (ws_publish 7
          [Text (JObj [(''type'', JStr ''junction_update''), (''name'', JStr ''x'')]),
           Text (JObj [(''type'', JStr ''junction_update''), (''junction_id'', JStr ''A'')])]
          one_dashboard) = Raised KeyError
   \<and> junctions (snd (ws_publish 7
          [Text (JObj [(''type'', JStr ''junction_update''), (''name'', JStr ''x'')]),
           Text (JObj [(''type'', JStr ''junction_update''), (''junction_id'', JStr ''A'')])]
          one_dashboard)) = []
   \<and> fst (ws_publish 7
          [Text (JObj [(''type'', JStr ''junction_update''), (''junction_id'', JStr ''A'')])]
          one_dashboard) = Receiving
   \<and> junctions (snd (ws_publish 7
          [Text (JObj [(''type'', JStr ''junction_update''), (''junction_id'', JStr ''A'')])]
          one_dashboard)) =
       [(KStr ''A'', [(''type'', JStr ''junction_update''), (''junction_id'', JStr ''A'')])]"
  by (simp add: ws_publish_def ws_publish_body_def ws_publish_except_def one_dashboard_def
        dict_get_def dict_item_def set_add_def broadcast_def send_text_def)

text \<open>
  Claim C3, amended. A \<^verbatim>\<open>junction_update\<close> message without \<^verbatim>\<open>junction_id\<close>
  changes neither the table nor anything else of the state and nothing is sent to
  any observer; but the \<^verbatim>\<open>KeyError\<close> that it raises ends the handler of the
  connection: whatever frames follow are not processed. The socket stays in
  \<^verbatim>\<open>publish_clients\<close>.
\<close>

theorem publish_missing_id:
  assumes "dict_get d ''type'' = JStr ''junction_update''"
    and "map_of d ''junction_id'' = None"
  shows "ws_publish_body (JObj d) w = (Inl KeyError, w)
     \<and> ws_publish_loop c (Text (JObj d) # fs) w = (Raised KeyError, w)
     \<and> ws_publish c (Text (JObj d) # fs) w =
         (Raised KeyError, w\<lparr>publish_clients := set_add c (publish_clients w)\<rparr>)"
  using assms
  by (simp add: ws_publish_def ws_publish_body_def ws_publish_except_def dict_item_def)

theorem publish_missing_id_witness:
  "dict_get [(''type'', JStr ''junction_update''), (''name'', JStr ''x'')] ''type'' =
     JStr ''junction_update''
   \<and> map_of [(''type'', JStr ''junction_update''), (''name'', JStr ''x'')] ''junction_id'' = None
   \<and> ws_publish_loop 7
        [Text (JObj [(''type'', JStr ''junction_update''), (''name'', JStr ''x'')]),
         Text (JObj [(''type'', JStr ''junction_update''), (''junction_id'', JStr ''A'')])]
        demo = (Raised KeyError, demo)"
  using publish_missing_id [of "[(''type'', JStr ''junction_update''), (''name'', JStr ''x'')]"
          demo 7 "[Text (JObj [(''type'', JStr ''junction_update''), (''junction_id'', JStr ''A'')])]"]
  by (simp add: dict_get_def del: ws_publish_loop.simps)

section \<open>Leaving the registry\<close>

text \<open>
  Claim C9, as stated, fails: removal is \<^verbatim>\<open>set.remove\<close>, which raises
  \<^verbatim>\<open>KeyError\<close> on a socket that is not in the set. Dashboard 2 fails at a
  broadcast, which removes it; when its connection then closes, the handler's own
  removal raises.
\<close>

theorem second_removal_counterexample:
  "dashboard_clients demo = [1, 2, 3]
   \<and> dashboard_clients (snd (broadcast (JStr ''m'') demo)) = [1, 3]
   \<and> fst (ws_dashboard_loop 2 [Closed] (snd (broadcast (JStr ''m'') demo))) = Raised KeyError"
  by (simp add: demo_def broadcast_def send_text_def set_remove_def ws_dashboard_except_def)

text \<open>
  Claim C9, amended. Removal is not idempotent. When the connection of a
  registered session closes, the handler takes the session out of the registry,
  which then no longer holds it; when the session is not in the registry, the same
  removal raises \<^verbatim>\<open>KeyError\<close> and changes nothing. So a session that a broadcast
  has removed after a failed send is not in the registry afterwards, and the
  removal at its disconnect raises \<^verbatim>\<open>KeyError\<close>: a session is taken out at most
  once, by the disconnect or by the broadcast, whichever comes first.
\<close>

theorem removal_once:
  "(c \<in> set (dashboard_clients w) \<longrightarrow>
      ws_dashboard_loop c (Closed # fs) w =
        (Disconnected, w\<lparr>dashboard_clients := removeAll c (dashboard_clients w)\<rparr>)
      \<and> c \<notin> set (removeAll c (dashboard_clients w)))
   \<and> (c \<notin> set (dashboard_clients w) \<longrightarrow>
      ws_dashboard_loop c (Closed # fs) w = (Raised KeyError, w))
   \<and> (distinct (dashboard_clients w) \<longrightarrow> failing w c \<longrightarrow>
      c \<notin> set (dashboard_clients (snd (broadcast m w)))
      \<and> ws_dashboard_loop c (Closed # fs) (snd (broadcast m w)) =
          (Raised KeyError, snd (broadcast m w)))"
proof -
  have "c \<notin> set (dashboard_clients (snd (broadcast m w)))"
    if "distinct (dashboard_clients w)" "failing w c"
    using that by (simp add: broadcast_eq)
  then show ?thesis
    by (simp add: ws_dashboard_except_def set_remove_def)
qed

theorem removal_once_witness:
  "ws_dashboard_loop 3 [Closed] demo =
     (Disconnected, demo\<lparr>dashboard_clients := removeAll 3 (dashboard_clients demo)\<rparr>)
   \<and> removeAll 3 (dashboard_clients demo) = [1, 2]
   \<and> ws_dashboard_loop 4 [Closed] demo = (Raised KeyError, demo)
   \<and> distinct (dashboard_clients demo) \<and> failing demo 2
   \<and> ws_dashboard_loop 2 [Closed] (snd (broadcast (JStr ''m'') demo)) =
       (Raised KeyError, snd (broadcast (JStr ''m'') demo))"
proof -
  have facts: "3 \<in> set (dashboard_clients demo)" "4 \<notin> set (dashboard_clients demo)"
    "distinct (dashboard_clients demo)" "failing demo 2"
    "removeAll 3 (dashboard_clients demo) = [1, 2]"
    by (simp_all add: demo_def failing_def)
  from removal_once [of 3 demo "[]" "JStr ''m''"] removal_once [of 4 demo "[]" "JStr ''m''"]
    removal_once [of 2 demo "[]" "JStr ''m''"] facts
  show ?thesis
    by blast
qed

section \<open>Invariants of the hub\<close>

lemma ids_match_update:
  "ids_match js \<Longrightarrow> id_key r = Inr k \<Longrightarrow> ids_match (AList.update k r js)"
  by (induction js) (auto simp add: ids_match_def)

lemma ids_match_lookup:
  "ids_match js \<Longrightarrow> map_of js k = Some r \<Longrightarrow> id_key r = Inr k"
  by (induction js) (auto simp add: ids_match_def split: if_splits)

lemma id_key_overridden: "id_key (overridden lane d operator reason t1 r) = id_key r"
  by (simp add: id_key_def dict_item_def overridden_def update_conv')

lemma id_key_stored: "ids_match (junctions w) \<Longrightarrow> id_key (stored jid w) = Inr (KStr jid)"
  by (cases "map_of (junctions w) (KStr jid)")
     (simp_all add: stored_def ids_match_lookup, simp add: id_key_def dict_item_def)

lemma ws_publish_except_junctions: "junctions (snd (ws_publish_except c e w)) = junctions w"
  by (simp add: ws_publish_except_def split: sum.splits)

lemma ws_dashboard_except_junctions: "junctions (snd (ws_dashboard_except c e w)) = junctions w"
  by (simp add: ws_dashboard_except_def split: sum.splits)

lemma ws_dashboard_loop_junctions: "junctions (snd (ws_dashboard_loop c fs w)) = junctions w"
  by (induction c fs w rule: ws_dashboard_loop.induct)
     (simp_all add: ws_dashboard_except_junctions)

lemma ws_dashboard_junctions: "junctions (snd (ws_dashboard c fs w)) = junctions w"
  by (simp add: ws_dashboard_def ws_dashboard_try_def send_text_def
        ws_dashboard_except_junctions ws_dashboard_loop_junctions split: option.splits)

lemma ws_publish_body_ids_match:
  assumes "ids_match (junctions w)"
  shows "ids_match (junctions (snd (ws_publish_body msg w)))"
proof (cases msg)
  case (JObj d)
  show ?thesis
  proof (cases "dict_get d ''type'' = JStr ''junction_update''")
    case False
    with JObj assms show ?thesis by (simp add: ws_publish_body_def)
  next
    case True
    show ?thesis
    proof (cases "id_key d")
      case (Inl e)
      with JObj True assms show ?thesis
        by (auto simp add: ws_publish_body_def id_key_def split: sum.splits)
    next
      case (Inr k)
      then obtain v where "dict_item d ''junction_id'' = Inr v" "hashable v = Inr k"
        by (auto simp add: id_key_def split: sum.splits)
      with JObj True ids_match_update [OF assms Inr] show ?thesis
        by (simp add: ws_publish_body_def broadcast_frame)
    qed
  qed
qed (use assms in \<open>simp_all add: ws_publish_body_def\<close>)

lemma ws_publish_loop_ids_match:
  "ids_match (junctions w) \<Longrightarrow> ids_match (junctions (snd (ws_publish_loop c fs w)))"
proof (induction c fs w rule: ws_publish_loop.induct)
  case (4 c msg fs w)
  from ws_publish_body_ids_match [OF "4.prems", of msg] "4.IH" show ?case
    by (cases "ws_publish_body msg w")
       (auto simp add: ws_publish_except_junctions split: sum.splits)
qed (simp_all add: ws_publish_except_junctions)

lemma override_junction_ids_match:
  assumes "ids_match (junctions w)"
  shows "ids_match (junctions (snd (override_junction ios jid payload t1 t2 w)))"
proof (cases "py_int ios (dict_get_default payload ''duration'' (JInt 20))")
  case (Inl e)
  from override_junction_raises [OF this] assms show ?thesis by simp
next
  case (Inr d)
  from override_junction_table [OF this, of jid t1 t2 w] assms show ?thesis
    by (simp add: ids_match_update id_key_overridden id_key_stored)
qed

lemma step_ids_match:
  "ids_match (junctions w) \<Longrightarrow> ids_match (junctions (step ios e w))"
  by (cases e)
     (simp_all add: ws_publish_def ws_publish_loop_ids_match ws_dashboard_junctions
        ws_dashboard_loop_junctions override_junction_ids_match)

text \<open>
  Claim C10. The table is empty when the hub starts, and every step of a
  handler keeps the invariant that each stored record has a \<^verbatim>\<open>junction_id\<close> field
  whose value is the key of the record: the producer path stores a message under
  its own \<^verbatim>\<open>junction_id\<close>, and the override path stores the id in the placeholder
  and writes only other fields. So the invariant holds after every sequence of
  steps from the start, and from any state in which it holds.
\<close>

theorem junction_id_is_key:
  "ids_match (junctions (run ios es (initial lk)))
   \<and> (ids_match (junctions w) \<longrightarrow>
        ids_match (junctions (snd (ws_publish_body msg w)))
        \<and> ids_match (junctions (snd (override_junction ios jid payload t1 t2 w)))
        \<and> ids_match (junctions (run ios es w)))"
proof -
  have run: "ids_match (junctions v) \<Longrightarrow> ids_match (junctions (run ios es v))" for v
    by (induction es arbitrary: v) (simp_all add: step_ids_match)
  have "ids_match (junctions (initial lk))"
    by (simp add: initial_def ids_match_def)
  with run show ?thesis
    by (simp add: ws_publish_body_ids_match override_junction_ids_match)
qed

theorem junction_id_is_key_witness:
  "ids_match (junctions two_junctions)
   \<and> junctions (run (\<lambda>s. None)
        [PubRecv 7 (Text (JObj [(''type'', JStr ''junction_update''), (''junction_id'', JInt 4)])),
         Override ''B'' [(''lane'', JStr ''east'')] ''T1'' ''T2'',
         Override ''C'' [] ''T3'' ''T4''] two_junctions) =
       [(KStr ''A'', [(''type'', JStr ''junction_update''), (''junction_id'', JStr ''A''),
                      (''current_green'', JStr ''north''), (''name'', JStr ''1st'')]),
        (KStr ''B'', [(''type'', JStr ''junction_update''), (''junction_id'', JStr ''B''),
                      (''current_green'', JStr ''east''), (''phase_remaining'', JInt 20),
                      (''override'', JObj [(''operator'', JStr ''manual''),
                                           (''reason'', JStr ''Manual override''),
                                           (''time'', JStr ''T1'')])]),
        (KNum 4, [(''type'', JStr ''junction_update''), (''junction_id'', JInt 4)]),
        (KStr ''C'', [(''junction_id'', JStr ''C''), (''current_green'', JNull),
                      (''phase_remaining'', JInt 20),
                      (''override'', JObj [(''operator'', JStr ''manual''),
                                           (''reason'', JStr ''Manual override''),
                                           (''time'', JStr ''T3'')])])]
   \<and> ids_match (junctions (run (\<lambda>s. None)
        [PubRecv 7 (Text (JObj [(''type'', JStr ''junction_update''), (''junction_id'', JInt 4)])),
         Override ''B'' [(''lane'', JStr ''east'')] ''T1'' ''T2'',
         Override ''C'' [] ''T3'' ''T4''] two_junctions))"
proof -
  have start: "ids_match (junctions two_junctions)"
    by (simp add: two_junctions_def ids_match_def id_key_def dict_item_def)
  have table: "junctions (run (\<lambda>s. None)
        [PubRecv 7 (Text (JObj [(''type'', JStr ''junction_update''), (''junction_id'', JInt 4)])),
         Override ''B'' [(''lane'', JStr ''east'')] ''T1'' ''T2'',
         Override ''C'' [] ''T3'' ''T4''] two_junctions) =
       [(KStr ''A'', [(''type'', JStr ''junction_update''), (''junction_id'', JStr ''A''),
                      (''current_green'', JStr ''north''), (''name'', JStr ''1st'')]),
        (KStr ''B'', [(''type'', JStr ''junction_update''), (''junction_id'', JStr ''B''),
                      (''current_green'', JStr ''east''), (''phase_remaining'', JInt 20),
                      (''override'', JObj [(''operator'', JStr ''manual''),
                                           (''reason'', JStr ''Manual override''),
                                           (''time'', JStr ''T1'')])]),
        (KNum 4, [(''type'', JStr ''junction_update''), (''junction_id'', JInt 4)]),
        (KStr ''C'', [(''junction_id'', JStr ''C''), (''current_green'', JNull),
                      (''phase_remaining'', JInt 20),
                      (''override'', JObj [(''operator'', JStr ''manual''),
                                           (''reason'', JStr ''Manual override''),
                                           (''time'', JStr ''T3'')])])]"
    by (simp add: two_junctions_def ws_publish_body_def dict_get_def dict_item_def
          dict_get_default_def dict_contains_def broadcast_def send_text_def
          override_junction_def ensure_junction_def set_field_def override_event_def Let_def)
  from junction_id_is_key [of "\<lambda>s. None" _ "\<lambda>c. None" two_junctions] start table
  show ?thesis
    by blast
qed

text \<open>
  The order in which the hub serves a socket: the registry has no duplicates, what
  has been sent to a socket starts with a snapshot and holds no other, and a
  registered socket has been sent to.
\<close>

lemma sent_to_attempts:
  "distinct cs \<Longrightarrow>
   map (\<lambda>x. fst (snd x)) (filter (\<lambda>x. fst x = c) (attempts m w cs)) =
     (if c \<in> set cs then [m] else [])"
  by (induction cs) (auto simp add: attempts_def)

lemma snapshot_first_append:
  "snapshot_first ms \<Longrightarrow> ms \<noteq> [] \<Longrightarrow> \<not> is_snapshot m \<Longrightarrow> snapshot_first (ms @ [m])"
  by (cases ms) simp_all

lemma served_broadcast:
  assumes "served w" and "\<not> is_snapshot m"
  shows "served (snd (broadcast m w))"
proof -
  from assms(1) have d: "distinct (dashboard_clients w)"
    by (simp add: served_def)
  have sent: "sent_to c (snd (broadcast m w)) =
              sent_to c w @ (if c \<in> set (dashboard_clients w) then [m] else [])" for c
    by (simp add: broadcast_eq [OF d] sent_to_def sent_to_attempts [OF d])
  have reg: "set (dashboard_clients (snd (broadcast m w))) \<subseteq> set (dashboard_clients w)"
    "distinct (dashboard_clients (snd (broadcast m w)))"
    using d by (simp_all add: broadcast_eq [OF d])
  show ?thesis
    unfolding served_def
  proof (intro conjI allI impI)
    show "distinct (dashboard_clients (snd (broadcast m w)))" by (rule reg)
  next
    fix c
    from assms show "snapshot_first (sent_to c (snd (broadcast m w)))"
      by (auto simp add: sent served_def snapshot_first_append)
  next
    fix c
    assume "c \<in> set (dashboard_clients (snd (broadcast m w)))"
    with reg have "c \<in> set (dashboard_clients w)" by blast
    then show "sent_to c (snd (broadcast m w)) \<noteq> []"
      by (simp add: sent)
  qed
qed

lemma served_junctions [simp]: "served (w\<lparr>junctions := js\<rparr>) = served w"
  by (simp add: served_def sent_to_def)

lemma served_publish_clients [simp]: "served (w\<lparr>publish_clients := cs\<rparr>) = served w"
  by (simp add: served_def sent_to_def)

lemma served_link [simp]: "served (w\<lparr>link := lk\<rparr>) = served w"
  by (simp add: served_def sent_to_def)

lemma served_remove:
  "served w \<Longrightarrow> served (w\<lparr>dashboard_clients := removeAll c (dashboard_clients w)\<rparr>)"
  by (simp add: served_def sent_to_def distinct_removeAll)

lemma served_ws_publish_except: "served w \<Longrightarrow> served (snd (ws_publish_except c e w))"
  by (simp add: ws_publish_except_def split: sum.splits)

lemma served_ws_dashboard_except: "served w \<Longrightarrow> served (snd (ws_dashboard_except c e w))"
  by (auto simp add: ws_dashboard_except_def set_remove_def served_remove split: sum.splits)

lemma served_ws_dashboard_loop: "served w \<Longrightarrow> served (snd (ws_dashboard_loop c fs w))"
  by (induction c fs w rule: ws_dashboard_loop.induct)
     (simp_all add: served_ws_dashboard_except)

lemma update_is_no_snapshot:
  "dict_get d ''type'' = JStr ''junction_update'' \<Longrightarrow> \<not> is_snapshot (JObj d)"
  by (simp add: is_snapshot_def)

lemma event_is_no_snapshot: "\<not> is_snapshot (override_event jid payload t2)"
  by (simp add: is_snapshot_def override_event_def dict_get_def)

lemma snapshot_is_snapshot: "is_snapshot (snapshot w)"
  by (simp add: is_snapshot_def snapshot_def dict_get_def)

lemma served_ws_publish_body:
  assumes "served w"
  shows "served (snd (ws_publish_body msg w))"
proof (cases msg)
  case (JObj d)
  show ?thesis
  proof (cases "dict_get d ''type'' = JStr ''junction_update''")
    case False
    with JObj assms show ?thesis by (simp add: ws_publish_body_def)
  next
    case True
    from assms have "served (snd (broadcast (JObj d) (w\<lparr>junctions := js\<rparr>)))" for js
      by (intro served_broadcast update_is_no_snapshot [OF True]) simp
    with JObj True assms show ?thesis
      by (simp add: ws_publish_body_def split: sum.splits)
  qed
qed (use assms in \<open>simp_all add: ws_publish_body_def\<close>)

lemma served_ws_publish_loop: "served w \<Longrightarrow> served (snd (ws_publish_loop c fs w))"
proof (induction c fs w rule: ws_publish_loop.induct)
  case (4 c msg fs w)
  from served_ws_publish_body [OF "4.prems", of msg] "4.IH" show ?case
    by (cases "ws_publish_body msg w")
       (auto simp add: served_ws_publish_except split: sum.splits)
qed (simp_all add: served_ws_publish_except)

lemma served_override_junction:
  assumes "served w"
  shows "served (snd (override_junction ios jid payload t1 t2 w))"
proof (cases "py_int ios (dict_get_default payload ''duration'' (JInt 20))")
  case (Inl e)
  from override_junction_raises [OF this] assms show ?thesis by simp
next
  case (Inr d)
  from assms have d: "distinct (dashboard_clients w)"
    by (simp add: served_def)
  let ?ev = "override_event jid payload t2"
  from served_broadcast [OF assms event_is_no_snapshot, of jid payload t2]
  have "served (w\<lparr>wire := wire w @ attempts ?ev w (dashboard_clients w),
                   dashboard_clients := filter (\<lambda>c. \<not> failing w c) (dashboard_clients w)\<rparr>)"
    by (simp add: broadcast_eq [OF d])
  then show ?thesis
    by (simp add: override_junction_eq [OF d Inr] served_def sent_to_def)
qed

lemma ws_dashboard_except_wire: "wire (snd (ws_dashboard_except c e w)) = wire w"
  by (simp add: ws_dashboard_except_def split: sum.splits)

lemma ws_dashboard_loop_wire: "wire (snd (ws_dashboard_loop c fs w)) = wire w"
  by (induction c fs w rule: ws_dashboard_loop.induct)
     (simp_all add: ws_dashboard_except_wire)

lemma ws_dashboard_wire:
  "wire (snd (ws_dashboard c fs w)) = wire w @ [(c, snapshot w, link w c)]"
  by (simp add: ws_dashboard_def ws_dashboard_try_def send_text_def ws_dashboard_except_wire
        ws_dashboard_loop_wire snapshot_def split: option.splits)

lemma ws_dashboard_except_clients:
  "set (dashboard_clients (snd (ws_dashboard_except c e w))) \<subseteq> set (dashboard_clients w)
   \<and> (distinct (dashboard_clients w) \<longrightarrow>
        distinct (dashboard_clients (snd (ws_dashboard_except c e w))))"
  by (auto simp add: ws_dashboard_except_def set_remove_def distinct_removeAll split: sum.splits)

lemma ws_dashboard_loop_clients:
  "set (dashboard_clients (snd (ws_dashboard_loop c fs w))) \<subseteq> set (dashboard_clients w)
   \<and> (distinct (dashboard_clients w) \<longrightarrow>
        distinct (dashboard_clients (snd (ws_dashboard_loop c fs w))))"
  by (induction c fs w rule: ws_dashboard_loop.induct)
     (simp_all add: ws_dashboard_except_clients)

lemma ws_dashboard_clients:
  "set (dashboard_clients (snd (ws_dashboard c fs w))) \<subseteq> insert c (set (dashboard_clients w))
   \<and> (distinct (dashboard_clients w) \<longrightarrow> distinct (dashboard_clients (snd (ws_dashboard c fs w))))"
proof -
  let ?w1 = "w\<lparr>dashboard_clients := set_add c (dashboard_clients w),
               wire := wire w @ [(c, snapshot w, link w c)]\<rparr>"
  have w1: "set (dashboard_clients ?w1) \<subseteq> insert c (set (dashboard_clients w))"
    "distinct (dashboard_clients w) \<longrightarrow> distinct (dashboard_clients ?w1)"
    by (auto simp add: set_add_def)
  show ?thesis
  proof (cases "link w c")
    case None
    then have "snd (ws_dashboard c fs w) = snd (ws_dashboard_loop c fs ?w1)"
      by (simp add: ws_dashboard_def ws_dashboard_try_def send_text_def snapshot_def)
    with ws_dashboard_loop_clients [of c fs ?w1] w1 show ?thesis
      by auto
  next
    case (Some e)
    then have "snd (ws_dashboard c fs w) = snd (ws_dashboard_except c e ?w1)"
      by (simp add: ws_dashboard_def ws_dashboard_try_def send_text_def snapshot_def)
    with ws_dashboard_except_clients [of c e ?w1] w1 show ?thesis
      by auto
  qed
qed

lemma served_ws_dashboard:
  assumes "served w" and "sent_to c w = []"
  shows "served (snd (ws_dashboard c fs w))"
proof -
  let ?w' = "snd (ws_dashboard c fs w)"
  have sent: "sent_to x ?w' = (if x = c then [snapshot w] else sent_to x w)" for x
    using assms(2) by (simp add: sent_to_def ws_dashboard_wire)
  from assms(1) have d: "distinct (dashboard_clients w)"
    by (simp add: served_def)
  show ?thesis
    unfolding served_def
  proof (intro conjI allI impI)
    from d ws_dashboard_clients [of c fs w] show "distinct (dashboard_clients ?w')"
      by blast
  next
    fix x
    from assms(1) show "snapshot_first (sent_to x ?w')"
      by (simp add: sent served_def snapshot_is_snapshot)
  next
    fix x
    assume "x \<in> set (dashboard_clients ?w')"
    with ws_dashboard_clients [of c fs w] have "x = c \<or> x \<in> set (dashboard_clients w)"
      by blast
    with assms(1) show "sent_to x ?w' \<noteq> []"
      by (auto simp add: sent served_def)
  qed
qed

lemma served_step: "served w \<Longrightarrow> served (step ios e w)"
  by (cases e)
     (simp_all add: ws_publish_def served_ws_publish_loop served_ws_dashboard
        served_ws_dashboard_loop served_override_junction)

lemma served_run: "served w \<Longrightarrow> served (run ios es w)"
  by (induction es arbitrary: w) (simp_all add: served_step)

lemma served_initial: "served (initial lk)"
  by (simp add: served_def initial_def sent_to_def)

text \<open>
  Claim C8. The handler of an observer connection first puts the socket into the
  registry and then enters the block that sends the snapshot. Whatever frames the
  connection brings afterwards, the handler calls \<^verbatim>\<open>send_text\<close> once in its
  whole run, with the message of type \<^verbatim>\<open>snapshot\<close> whose \<^verbatim>\<open>junctions\<close> list is
  the list of the records stored at that moment, in the order of the table. In
  every run of the hub from its start, what has been sent to a socket begins with
  a snapshot and holds no second one, and every socket in the registry has
  already been sent its snapshot: no broadcast reaches a session before it.
\<close>

theorem dashboard_snapshot_once:
  "ws_dashboard c fs w =
     ws_dashboard_try c fs (w\<lparr>dashboard_clients := set_add c (dashboard_clients w)\<rparr>)
   \<and> c \<in> set (set_add c (dashboard_clients w))
   \<and> wire (snd (ws_dashboard c fs w)) =
       wire w @ [(c, JObj [(''type'', JStr ''snapshot''),
                           (''junctions'', JArr (map (\<lambda>kv. JObj (snd kv)) (junctions w)))],
                  link w c)]
   \<and> snapshot_first (sent_to c (run ios es (initial lk)))
   \<and> (c \<in> set (dashboard_clients (run ios es (initial lk))) \<longrightarrow>
        sent_to c (run ios es (initial lk)) \<noteq> [])"
proof -
  have "served (run ios es (initial lk))"
    by (intro served_run served_initial)
  then have run: "snapshot_first (sent_to c (run ios es (initial lk)))"
    "c \<in> set (dashboard_clients (run ios es (initial lk))) \<longrightarrow>
       sent_to c (run ios es (initial lk)) \<noteq> []"
    by (simp_all add: served_def)
  have "wire (snd (ws_dashboard c fs w)) =
       wire w @ [(c, JObj [(''type'', JStr ''snapshot''),
                           (''junctions'', JArr (map (\<lambda>kv. JObj (snd kv)) (junctions w)))],
                  link w c)]"
    by (simp add: ws_dashboard_wire snapshot_def)
  moreover have "c \<in> set (set_add c (dashboard_clients w))"
    by (simp add: set_add_def)
  moreover have "ws_dashboard c fs w =
     ws_dashboard_try c fs (w\<lparr>dashboard_clients := set_add c (dashboard_clients w)\<rparr>)"
    by (simp add: ws_dashboard_def)
  ultimately show ?thesis
    using run by blast
qed

theorem dashboard_snapshot_once_witness:
  "wire (snd (ws_dashboard 5 [Text JNull, Undecodable] two_junctions)) =
     [(5, JObj [(''type'', JStr ''snapshot''),
                (''junctions'',
                   JArr [JObj [(''type'', JStr ''junction_update''), (''junction_id'', JStr ''A''),
                               (''current_green'', JStr ''north''), (''name'', JStr ''1st'')],
                         JObj [(''type'', JStr ''junction_update''), (''junction_id'', JStr ''B''),
                               (''current_green'', JStr ''west'')]])], None)]
   \<and> sent_to 1 (run (\<lambda>s. None)
        [PubRecv 7 (Text (JObj [(''type'', JStr ''junction_update''), (''junction_id'', JStr ''A'')])),
         DashOpen 1,
         PubRecv 7 (Text (JObj [(''type'', JStr ''junction_update''), (''junction_id'', JStr ''B'')])),
         DashOpen 1,
         Override ''A'' [(''lane'', JStr ''east'')] ''T1'' ''T2'']
        (initial (\<lambda>c. None))) =
     [JObj [(''type'', JStr ''snapshot''),
            (''junctions'',
               JArr [JObj [(''type'', JStr ''junction_update''), (''junction_id'', JStr ''A'')]])],
      JObj [(''type'', JStr ''junction_update''), (''junction_id'', JStr ''B'')],
      JObj [(''type'', JStr ''override''), (''junction_id'', JStr ''A''),
            (''payload'', JObj [(''lane'', JStr ''east'')]), (''ts'', JStr ''T2'')]]
   \<and> snapshot_first (sent_to 1 (run (\<lambda>s. None)
        [PubRecv 7 (Text (JObj [(''type'', JStr ''junction_update''), (''junction_id'', JStr ''A'')])),
         DashOpen 1,
         PubRecv 7 (Text (JObj [(''type'', JStr ''junction_update''), (''junction_id'', JStr ''B'')])),
         DashOpen 1,
         Override ''A'' [(''lane'', JStr ''east'')] ''T1'' ''T2'']
        (initial (\<lambda>c. None))))"
proof -
  let ?es = "[PubRecv 7 (Text (JObj [(''type'', JStr ''junction_update''), (''junction_id'', JStr ''A'')])),
         DashOpen 1,
         PubRecv 7 (Text (JObj [(''type'', JStr ''junction_update''), (''junction_id'', JStr ''B'')])),
         DashOpen 1,
         Override ''A'' [(''lane'', JStr ''east'')] ''T1'' ''T2'']"
  have sent: "sent_to 1 (run (\<lambda>s. None) ?es (initial (\<lambda>c. None))) =
     [JObj [(''type'', JStr ''snapshot''),
            (''junctions'',
               JArr [JObj [(''type'', JStr ''junction_update''), (''junction_id'', JStr ''A'')]])],
      JObj [(''type'', JStr ''junction_update''), (''junction_id'', JStr ''B'')],
      JObj [(''type'', JStr ''override''), (''junction_id'', JStr ''A''),
            (''payload'', JObj [(''lane'', JStr ''east'')]), (''ts'', JStr ''T2'')]]"
    by (simp add: initial_def sent_to_def ws_publish_body_def dict_get_def dict_item_def
          dict_get_default_def dict_contains_def broadcast_def send_text_def set_add_def
          set_remove_def ws_dashboard_def ws_dashboard_try_def snapshot_def
          override_junction_def ensure_junction_def set_field_def override_event_def Let_def)
  have two: "junctions two_junctions =
     [(KStr ''A'', [(''type'', JStr ''junction_update''), (''junction_id'', JStr ''A''),
                    (''current_green'', JStr ''north''), (''name'', JStr ''1st'')]),
      (KStr ''B'', [(''type'', JStr ''junction_update''), (''junction_id'', JStr ''B''),
                    (''current_green'', JStr ''west'')])]"
    "wire two_junctions = []" "link two_junctions 5 = None"
    by (simp_all add: two_junctions_def)
  from dashboard_snapshot_once [of 5 "[Text JNull, Undecodable]" two_junctions "\<lambda>s. None" "[]" "\<lambda>c. None",
         THEN conjunct2, THEN conjunct2, THEN conjunct1]
  have first: "wire (snd (ws_dashboard 5 [Text JNull, Undecodable] two_junctions)) =
     [(5, JObj [(''type'', JStr ''snapshot''),
                (''junctions'',
                   JArr [JObj [(''type'', JStr ''junction_update''), (''junction_id'', JStr ''A''),
                               (''current_green'', JStr ''north''), (''name'', JStr ''1st'')],
                         JObj [(''type'', JStr ''junction_update''), (''junction_id'', JStr ''B''),
                               (''current_green'', JStr ''west'')]])], None)]"
    by (simp add: two)
  from dashboard_snapshot_once [of 1 "[]" two_junctions "\<lambda>s. None" ?es "\<lambda>c. None"]
  have "snapshot_first (sent_to 1 (run (\<lambda>s. None) ?es (initial (\<lambda>c. None))))"
    by blast
  with first sent show ?thesis
    by blast
qed

end
